theory Spec2Isabelle
  imports Complex_Main
begin

section \<open>Errors raised by the simulation package\<close>

text \<open>
  Python exceptions are values. \<open>ValueError\<close> carries its message, since the tests of
  the repository match on it.  Python floats are modelled as exact reals; where the
  rounding of doubles decides what the code does (the last entry of the cumulative
  table), the rounded values are written out.
\<close>

datatype error = ValueError string | IndexError | KeyError string

section \<open>sim/odds.py\<close>

definition american_to_implied_prob :: "int \<Rightarrow> real" where
  "american_to_implied_prob odds =
     (if odds > 0 then 100 / real_of_int (odds + 100)
      else real_of_int \<bar>odds\<bar> / real_of_int (\<bar>odds\<bar> + 100))"

text \<open>
  A Python dict keeps insertion order, so the mapping of outcome names to
  probabilities is an association list with distinct keys.
\<close>

definition normalize_probs :: "(string \<times> real) list \<Rightarrow> error + (string \<times> real) list" where
  "normalize_probs probs =
     (let total = sum_list (map snd probs) in
      if total = 0 then Inl (ValueError ''Sum of probabilities cannot be zero'')
      else Inr (map (\<lambda>(k, v). (k, v / total)) probs))"

section \<open>sim/model.py\<close>

record OddsConfig =
  joshua_moneyline :: int
  paul_moneyline :: int
  joshua_ko :: int
  joshua_decision :: int
  paul_ko :: int
  paul_decision :: int
  draw :: int
  total_rounds :: int

text \<open>The defaults of the dataclass.\<close>

definition OddsConfig_default :: OddsConfig where
  "OddsConfig_default =
     \<lparr>joshua_moneyline = -1200, paul_moneyline = 800, joshua_ko = -390,
      joshua_decision = 450, paul_ko = 1200, paul_decision = 1300, draw = 2500,
      total_rounds = 8\<rparr>"

record RoundDistribution =
  joshua_ko_rounds :: "real list"
  paul_ko_rounds :: "real list"

text \<open>
  \<open>__post_init__\<close> runs on the fields the generated \<open>__init__\<close> has stored; it
  raises or returns the object with the rescaled vectors.
\<close>

definition RoundDistribution_post_init :: "RoundDistribution \<Rightarrow> error + RoundDistribution" where
  "RoundDistribution_post_init self =
     (if length (joshua_ko_rounds self) \<noteq> 8
        then Inl (ValueError ''joshua_ko_rounds must have 8 values'')
      else if length (paul_ko_rounds self) \<noteq> 8
        then Inl (ValueError ''paul_ko_rounds must have 8 values'')
      else if list_ex (\<lambda>p. p < 0) (joshua_ko_rounds self)
        then Inl (ValueError ''joshua_ko_rounds must be non-negative'')
      else if list_ex (\<lambda>p. p < 0) (paul_ko_rounds self)
        then Inl (ValueError ''paul_ko_rounds must be non-negative'')
      else
        let joshua_sum = sum_list (joshua_ko_rounds self);
            paul_sum = sum_list (paul_ko_rounds self);
            self1 = (if joshua_sum > 0
                     then self\<lparr>joshua_ko_rounds := map (\<lambda>p. p / joshua_sum) (joshua_ko_rounds self)\<rparr>
                     else self);
            self2 = (if paul_sum > 0
                     then self1\<lparr>paul_ko_rounds := map (\<lambda>p. p / paul_sum) (paul_ko_rounds self1)\<rparr>
                     else self1)
        in Inr self2)"

definition RoundDistribution_init :: "real list \<Rightarrow> real list \<Rightarrow> error + RoundDistribution" where
  "RoundDistribution_init jr pr =
     RoundDistribution_post_init \<lparr>joshua_ko_rounds = jr, paul_ko_rounds = pr\<rparr>"

record SimulationParams =
  odds :: OddsConfig
  round_dist :: RoundDistribution
  seed :: int
  enable_draw :: bool

text \<open>The fields \<open>method\<close> and \<open>round\<close> of the dataclass are \<open>method_label\<close> and \<open>round_num\<close>.\<close>

record FightResult =
  sim_id :: int
  winner :: string
  method_label :: string
  round_num :: int

section \<open>The numpy operations the engine calls\<close>

text \<open>
  The generator is the library's, not the repository's, so it is a parameter of the
  model.  A generator state is the sequence of uniform values it will still deliver:
  \<open>random()\<close> takes the next one, \<open>random(n)\<close> takes the next \<open>n\<close> in order, and
  both leave the rest.  Seeding is a function \<open>default_rng\<close> from the seed to a
  generator state, which may refuse the seed (numpy rejects a negative one).
\<close>

type_synonym generator = "nat \<Rightarrow> real"

definition random_one :: "generator \<Rightarrow> real \<times> generator" where
  "random_one g = (g 0, \<lambda>k. g (Suc k))"

definition random_many :: "generator \<Rightarrow> nat \<Rightarrow> real list \<times> generator" where
  "random_many g n = (map g [0..<n], \<lambda>k. g (k + n))"

text \<open>The values a generator delivers lie in the half-open unit interval.\<close>

definition uniform :: "generator \<Rightarrow> bool" where
  "uniform g = (\<forall>k. 0 \<le> g k \<and> g k < 1)"

text \<open>\<open>np.cumsum\<close>: the running totals of a list.\<close>

fun cumsum_from :: "real \<Rightarrow> real list \<Rightarrow> real list" where
  "cumsum_from acc [] = []"
| "cumsum_from acc (x # xs) = (acc + x) # cumsum_from (acc + x) xs"

definition cumsum :: "real list \<Rightarrow> real list" where
  "cumsum xs = cumsum_from 0 xs"

text \<open>
  \<open>np.searchsorted(a, v)\<close> with the default \<open>side='left'\<close>, for a sorted \<open>a\<close>: the
  first index whose entry is at least \<open>v\<close>, or the length of \<open>a\<close> when there is none.
  The engine only calls it on running totals of non-negative numbers, which are sorted.
\<close>

definition searchsorted :: "real list \<Rightarrow> real \<Rightarrow> nat" where
  "searchsorted a v = length (takeWhile (\<lambda>x. x < v) a)"

section \<open>sim/engine.py\<close>

record SimulationEngine =
  params :: SimulationParams
  rng :: generator
  normalized_probs :: "(string \<times> real) list"
  outcomes :: "string list"
  cumulative_probs :: "real list"

text \<open>\<open>[self.normalized_probs[outcome] for outcome in outcomes]\<close>; a missing key raises.\<close>

fun lookup_all :: "(string \<times> real) list \<Rightarrow> string list \<Rightarrow> error + real list" where
  "lookup_all m [] = Inr []"
| "lookup_all m (k # ks) =
     (case map_of m k of
        None \<Rightarrow> Inl (KeyError k)
      | Some v \<Rightarrow> (case lookup_all m ks of Inl e \<Rightarrow> Inl e | Inr vs \<Rightarrow> Inr (v # vs)))"

text \<open>
  \<open>_compute_probabilities\<close> fills the three precomputed attributes from the stored
  parameters; it returns them, or the error \<open>normalize_probs\<close> raised.
\<close>

definition compute_probabilities ::
  "SimulationParams \<Rightarrow> error + ((string \<times> real) list \<times> string list \<times> real list)" where
  "compute_probabilities p =
     (let od = odds p;
          probs = [(''joshua_ko'', american_to_implied_prob (joshua_ko od)),
                   (''joshua_decision'', american_to_implied_prob (joshua_decision od)),
                   (''paul_ko'', american_to_implied_prob (paul_ko od)),
                   (''paul_decision'', american_to_implied_prob (paul_decision od))]
                  @ (if enable_draw p then [(''draw'', american_to_implied_prob (draw od))] else [])
      in case normalize_probs probs of
           Inl e \<Rightarrow> Inl e
         | Inr normalized \<Rightarrow>
             let outs = [''joshua_ko'', ''joshua_decision'', ''paul_ko'', ''paul_decision'']
                        @ (if enable_draw p then [''draw''] else [])
             in (case lookup_all normalized outs of
                   Inl e \<Rightarrow> Inl e
                 | Inr vs \<Rightarrow> Inr (normalized, outs, cumsum vs)))"

definition SimulationEngine_init ::
  "(int \<Rightarrow> error + generator) \<Rightarrow> SimulationParams \<Rightarrow> error + SimulationEngine" where
  "SimulationEngine_init default_rng p =
     (case default_rng (seed p) of
        Inl e \<Rightarrow> Inl e
      | Inr g \<Rightarrow>
          (case compute_probabilities p of
             Inl e \<Rightarrow> Inl e
           | Inr (normalized, outs, cum) \<Rightarrow>
               Inr \<lparr>params = p, rng = g, normalized_probs = normalized,
                    outcomes = outs, cumulative_probs = cum\<rparr>))"

text \<open>
  \<open>reseed\<close> assigns the generator first, so a refused seed leaves the engine as it
  was; then it writes the seed into the stored parameters.
\<close>

definition reseed ::
  "(int \<Rightarrow> error + generator) \<Rightarrow> SimulationEngine \<Rightarrow> int \<Rightarrow> error + SimulationEngine" where
  "reseed default_rng self s =
     (case default_rng s of
        Inl e \<Rightarrow> Inl e
      | Inr g \<Rightarrow> Inr (self\<lparr>rng := g, params := (params self)\<lparr>seed := s\<rparr>\<rparr>))"

definition sample_round :: "SimulationEngine \<Rightarrow> real list \<Rightarrow> int \<times> SimulationEngine" where
  "sample_round self round_probs =
     (let cum_probs = cumsum round_probs;
          (sample, g) = random_one (rng self);
          round_idx = searchsorted cum_probs sample
      in (min (int round_idx + 1) 8, self\<lparr>rng := g\<rparr>))"

text \<open>
  The body of the loop of \<open>simulate_batch\<close> for one index: the outcome is read from
  the outcome list (out of range raises), and the if-chain gives winner, method and
  round, drawing from the generator for a knockout.
\<close>

definition simulate_one ::
  "SimulationEngine \<Rightarrow> int \<Rightarrow> nat \<Rightarrow> error + (FightResult \<times> SimulationEngine)" where
  "simulate_one self sid outcome_idx =
     (if outcome_idx \<ge> length (outcomes self) then Inl IndexError
      else
        let outcome = outcomes self ! outcome_idx in
        if outcome = ''joshua_ko'' then
          (let (r, self1) = sample_round self (joshua_ko_rounds (round_dist (params self)))
           in Inr (\<lparr>sim_id = sid, winner = ''Joshua'', method_label = ''KO/TKO/DQ'', round_num = r\<rparr>, self1))
        else if outcome = ''joshua_decision'' then
          Inr (\<lparr>sim_id = sid, winner = ''Joshua'', method_label = ''Decision'', round_num = 9\<rparr>, self)
        else if outcome = ''paul_ko'' then
          (let (r, self1) = sample_round self (paul_ko_rounds (round_dist (params self)))
           in Inr (\<lparr>sim_id = sid, winner = ''Paul'', method_label = ''KO/TKO/DQ'', round_num = r\<rparr>, self1))
        else if outcome = ''paul_decision'' then
          Inr (\<lparr>sim_id = sid, winner = ''Paul'', method_label = ''Decision'', round_num = 9\<rparr>, self)
        else
          Inr (\<lparr>sim_id = sid, winner = ''Draw'', method_label = ''Decision'', round_num = 9\<rparr>, self))"

text \<open>
  The loop \<open>for i in range(count)\<close>, over the remaining entries of \<open>outcome_indices\<close>
  with the current \<open>i\<close>.  An exception leaves the loop with the engine as it is then.
\<close>

fun batch_loop ::
  "SimulationEngine \<Rightarrow> int \<Rightarrow> nat \<Rightarrow> nat list \<Rightarrow> FightResult list
   \<Rightarrow> (error + FightResult list) \<times> SimulationEngine" where
  "batch_loop self start_id i [] results = (Inr results, self)"
| "batch_loop self start_id i (outcome_idx # rest) results =
     (case simulate_one self (start_id + int i) outcome_idx of
        Inl e \<Rightarrow> (Inl e, self)
      | Inr (res, self1) \<Rightarrow> batch_loop self1 start_id (Suc i) rest (results @ [res]))"

text \<open>
  \<open>simulate_batch\<close> returns the records or the exception, and the engine after the
  call.  A negative count is refused by \<open>rng.random\<close> before anything is drawn.
\<close>

definition simulate_batch ::
  "SimulationEngine \<Rightarrow> int \<Rightarrow> int \<Rightarrow> (error + FightResult list) \<times> SimulationEngine" where
  "simulate_batch self count start_id =
     (if count < 0 then (Inl (ValueError ''negative dimensions are not allowed''), self)
      else
        let (outcome_samples, g) = random_many (rng self) (nat count);
            outcome_indices = map (searchsorted (cumulative_probs self)) outcome_samples
        in batch_loop (self\<lparr>rng := g\<rparr>) start_id 0 outcome_indices [])"

text \<open>A sequence of \<open>simulate_batch\<close> calls on one engine, stopping at the first exception.\<close>

fun simulate_calls ::
  "SimulationEngine \<Rightarrow> (int \<times> int) list \<Rightarrow> error + FightResult list list" where
  "simulate_calls self [] = Inr []"
| "simulate_calls self ((count, start_id) # cs) =
     (case simulate_batch self count start_id of
        (Inl e, self1) \<Rightarrow> Inl e
      | (Inr rs, self1) \<Rightarrow>
          (case simulate_calls self1 cs of Inl e \<Rightarrow> Inl e | Inr rss \<Rightarrow> Inr (rs # rss)))"

section \<open>Properties of a record\<close>

text \<open>
  What the engine's own comments promise of a record: a knockout in rounds 1 to 8,
  and round 9 for a decision or a draw.
\<close>

definition round_ok :: "FightResult \<Rightarrow> bool" where
  "round_ok r \<longleftrightarrow>
     (method_label r = ''KO/TKO/DQ'' \<longrightarrow> 1 \<le> round_num r \<and> round_num r \<le> 8)
     \<and> (method_label r = ''Decision'' \<or> winner r = ''Draw'' \<longrightarrow> round_num r = 9)"

section \<open>The states an engine goes through\<close>

text \<open>
  An engine is constructed from a configuration and is then only changed by its own
  methods: \<open>simulate_batch\<close> (whether it returns or raises) and \<open>reseed\<close>.
\<close>

inductive reachable ::
  "(int \<Rightarrow> error + generator) \<Rightarrow> SimulationParams \<Rightarrow> SimulationEngine \<Rightarrow> bool"
  for default_rng p where
    constructed: "SimulationEngine_init default_rng p = Inr e \<Longrightarrow> reachable default_rng p e"
  | after_batch: "reachable default_rng p e \<Longrightarrow>
       reachable default_rng p (snd (simulate_batch e count start_id))"
  | after_reseed: "reachable default_rng p e \<Longrightarrow> reseed default_rng e s = Inr e' \<Longrightarrow>
       reachable default_rng p e'"

text \<open>Every generator that seeding returns delivers values of the half-open unit interval.\<close>

definition seeds_uniform :: "(int \<Rightarrow> error + generator) \<Rightarrow> bool" where
  "seeds_uniform default_rng = (\<forall>s g. default_rng s = Inr g \<longrightarrow> uniform g)"

text \<open>Two generators deliver the same first \<open>m\<close> values.\<close>

definition agree :: "nat \<Rightarrow> generator \<Rightarrow> generator \<Rightarrow> bool" where
  "agree m g h = (\<forall>k<m. g k = h k)"

section \<open>A worked configuration\<close>

text \<open>
  The default odds with equal round weights (as stored after rescaling), and a seeding
  function whose generator for seed 42 delivers 0.1, 0.05 and then 0.95 for ever.
\<close>

definition example_round_dist :: RoundDistribution where
  "example_round_dist =
     \<lparr>joshua_ko_rounds = [1/8, 1/8, 1/8, 1/8, 1/8, 1/8, 1/8, 1/8],
      paul_ko_rounds = [1/8, 1/8, 1/8, 1/8, 1/8, 1/8, 1/8, 1/8]\<rparr>"

definition example_params :: SimulationParams where
  "example_params =
     \<lparr>odds = OddsConfig_default, round_dist = example_round_dist, seed = 42,
      enable_draw = False\<rparr>"

definition example_draws :: generator where
  "example_draws k = (if k = 0 then 1/10 else if k = 1 then 1/20 else 19/20)"

definition example_rng :: "int \<Rightarrow> error + generator" where
  "example_rng s =
     (if s < 0 then Inl (ValueError ''expected non-negative integer'')
      else if s = 42 then Inr example_draws
      else Inr (\<lambda>k. 1/2))"

definition example_engine :: SimulationEngine where
  "example_engine =
     \<lparr>params = example_params, rng = example_draws,
      normalized_probs =
        [(''joshua_ko'', 11154 / 15781), (''joshua_decision'', 2548 / 15781),
         (''paul_ko'', 1078 / 15781), (''paul_decision'', 1001 / 15781)],
      outcomes = [''joshua_ko'', ''joshua_decision'', ''paul_ko'', ''paul_decision''],
      cumulative_probs = [11154 / 15781, 13702 / 15781, 14780 / 15781, 1]\<rparr>"

text \<open>The same configuration announcing a contest of five rounds.\<close>

definition five_round_params :: SimulationParams where
  "five_round_params = example_params\<lparr>odds := OddsConfig_default\<lparr>total_rounds := 5\<rparr>\<rparr>"

definition five_round_engine :: SimulationEngine where
  "five_round_engine = example_engine\<lparr>params := five_round_params\<rparr>"

text \<open>
  A second seeding function: its generator delivers the same first six values and
  0.5 from then on.
\<close>

definition alt_draws :: generator where
  "alt_draws k = (if k < 6 then example_draws k else 1/2)"

definition alt_rng :: "int \<Rightarrow> error + generator" where
  "alt_rng s = (if s < 0 then Inl (ValueError ''expected non-negative integer'') else Inr alt_draws)"

definition alt_engine :: SimulationEngine where
  "alt_engine = example_engine\<lparr>rng := alt_draws\<rparr>"

text \<open>
  The configuration with the price 370 for a finish by Joshua, and its engine with the
  tables as IEEE double arithmetic computes them (the last cumulative entry is
  \<open>1 - 2^(-52)\<close>, printed 0.9999999999999998), at a generator that delivers
  \<open>1 - 2^(-53)\<close>, the largest double below 1.
\<close>

definition drift_params :: SimulationParams where
  "drift_params = example_params\<lparr>odds := OddsConfig_default\<lparr>joshua_ko := 370\<rparr>\<rparr>"

definition top_draws :: generator where
  "top_draws k = 9007199254740991 / 9007199254740992"

definition drift_engine :: SimulationEngine where
  "drift_engine =
     \<lparr>params = drift_params, rng = top_draws,
      normalized_probs =
        [(''joshua_ko'', 7059491811220649 / 18014398509481984),
         (''joshua_decision'', 754082079834933 / 2251799813685248),
         (''paul_ko'', 2552277808672081 / 18014398509481984),
         (''paul_decision'', 2369972250909789 / 18014398509481984)],
      outcomes = [''joshua_ko'', ''joshua_decision'', ''paul_ko'', ''paul_decision''],
      cumulative_probs =
        [7059491811220649 / 18014398509481984, 818259278118757 / 1125899906842624,
         488888320580381 / 562949953421312, 4503599627370495 / 4503599627370496]\<rparr>"


section \<open>Odds conversion at zero\<close>

text \<open>
  C3, as the specification states it, fails: at the price 0 the test \<open>odds > 0\<close> is
  false, so the other branch runs and the result is \<open>0 / 100 = 0\<close>, not \<open>0.5\<close>.
\<close>

theorem american_to_implied_prob_zero_not_half:
  "american_to_implied_prob 0 \<noteq> 1 / 2 \<and> american_to_implied_prob 0 = 0"
  by (simp add: american_to_implied_prob_def)

text \<open>
  C3 (amended): applied to a price of exactly 0, the conversion takes the branch for
  non-positive odds, \<open>|0| / (|0| + 100)\<close>, and returns 0; it does not fail.
\<close>

theorem american_to_implied_prob_zero:
  "american_to_implied_prob 0 = real_of_int \<bar>0\<bar> / real_of_int (\<bar>0\<bar> + 100)
   \<and> american_to_implied_prob 0 = 0"
  by (simp add: american_to_implied_prob_def)

section \<open>The worked configuration, evaluated\<close>

lemma example_round_dist_init:
  "RoundDistribution_init [1, 1, 1, 1, 1, 1, 1, 1] [1, 1, 1, 1, 1, 1, 1, 1] = Inr example_round_dist"
  by (simp add: RoundDistribution_init_def RoundDistribution_post_init_def example_round_dist_def)

lemma example_compute:
  "compute_probabilities example_params =
     Inr (normalized_probs example_engine, outcomes example_engine, cumulative_probs example_engine)"
  by (simp add: compute_probabilities_def example_params_def OddsConfig_default_def
      american_to_implied_prob_def normalize_probs_def cumsum_def example_engine_def)

lemma example_engine_init: "SimulationEngine_init example_rng example_params = Inr example_engine"
proof -
  have s: "seed example_params = 42"
    by (simp add: example_params_def)
  show ?thesis
    by (simp add: SimulationEngine_init_def example_compute s example_rng_def)
       (simp add: example_engine_def)
qed

lemma five_round_compute:
  "compute_probabilities five_round_params =
     Inr (normalized_probs example_engine, outcomes example_engine, cumulative_probs example_engine)"
  by (simp add: compute_probabilities_def five_round_params_def example_params_def
      OddsConfig_default_def american_to_implied_prob_def normalize_probs_def cumsum_def
      example_engine_def)

lemma five_round_engine_init:
  "SimulationEngine_init example_rng five_round_params = Inr five_round_engine"
proof -
  have s: "seed five_round_params = 42"
    by (simp add: five_round_params_def example_params_def)
  show ?thesis
    by (simp add: SimulationEngine_init_def five_round_compute s example_rng_def)
       (simp add: five_round_engine_def example_engine_def)
qed

lemma alt_engine_init: "SimulationEngine_init alt_rng example_params = Inr alt_engine"
proof -
  have s: "seed example_params = 42"
    by (simp add: example_params_def)
  show ?thesis
    by (simp add: SimulationEngine_init_def example_compute s alt_rng_def)
       (simp add: alt_engine_def example_engine_def)
qed

lemma example_seeds_uniform: "seeds_uniform example_rng"
  by (auto simp: seeds_uniform_def example_rng_def uniform_def example_draws_def
      split: if_splits)

lemma example_batch3:
  "fst (simulate_batch example_engine 3 0) = Inr
     [\<lparr>sim_id = 0, winner = ''Joshua'', method_label = ''KO/TKO/DQ'', round_num = 8\<rparr>,
      \<lparr>sim_id = 1, winner = ''Joshua'', method_label = ''KO/TKO/DQ'', round_num = 8\<rparr>,
      \<lparr>sim_id = 2, winner = ''Paul'', method_label = ''Decision'', round_num = 9\<rparr>]"
  by code_simp

section \<open>Validation of the round distributions\<close>

lemma list_ex_neg_iff: "list_ex (\<lambda>p. p < (0::real)) xs \<longleftrightarrow> \<not> (\<forall>w\<in>set xs. 0 \<le> w)"
  by (auto simp: list_ex_iff not_le)

text \<open>
  C4, as the specification states it, fails: two all-zero vectors of length 8 pass
  every check, and since neither sum is positive neither vector is rescaled.  The
  constructor returns the object with both vectors all zero.
\<close>

theorem RoundDistribution_all_zero_accepted:
  "RoundDistribution_init [0, 0, 0, 0, 0, 0, 0, 0] [0, 0, 0, 0, 0, 0, 0, 0]
     = Inr \<lparr>joshua_ko_rounds = [0, 0, 0, 0, 0, 0, 0, 0],
            paul_ko_rounds = [0, 0, 0, 0, 0, 0, 0, 0]\<rparr>"
  by (simp add: RoundDistribution_init_def RoundDistribution_post_init_def)

text \<open>
  C4 (amended): constructing a RoundDistribution from two vectors of 8 non-negative
  weights always succeeds, also when a vector has sum 0 (all entries zero): no
  validation error is raised, and a vector with sum 0 is stored unchanged.
\<close>

theorem RoundDistribution_zero_sum_kept:
  assumes "length jr = 8" and "length pr = 8"
      and "\<forall>w\<in>set jr. 0 \<le> w" and "\<forall>w\<in>set pr. 0 \<le> w"
  shows "\<exists>rd. RoundDistribution_init jr pr = Inr rd
           \<and> (sum_list jr = 0 \<longrightarrow> joshua_ko_rounds rd = jr)
           \<and> (sum_list pr = 0 \<longrightarrow> paul_ko_rounds rd = pr)"
  using assms
  by (simp add: RoundDistribution_init_def RoundDistribution_post_init_def
      list_ex_neg_iff Let_def)

text \<open>The amended C4 at an all-zero vector for Joshua and equal weights for Paul.\<close>

theorem RoundDistribution_zero_sum_kept_witness:
  "length [0, 0, 0, 0, 0, 0, 0, 0 :: real] = 8 \<and> length [1, 1, 1, 1, 1, 1, 1, 1 :: real] = 8
   \<and> list_all (\<lambda>w. 0 \<le> w) [0, 0, 0, 0, 0, 0, 0, 0 :: real]
   \<and> list_all (\<lambda>w. 0 \<le> w) [1, 1, 1, 1, 1, 1, 1, 1 :: real]
   \<and> sum_list [0, 0, 0, 0, 0, 0, 0, 0 :: real] = 0
   \<and> (\<exists>rd. RoundDistribution_init [0, 0, 0, 0, 0, 0, 0, 0] [1, 1, 1, 1, 1, 1, 1, 1] = Inr rd
          \<and> joshua_ko_rounds rd = [0, 0, 0, 0, 0, 0, 0, 0])"
  using RoundDistribution_zero_sum_kept
          [of "[0, 0, 0, 0, 0, 0, 0, 0]" "[1, 1, 1, 1, 1, 1, 1, 1]"]
  by simp

text \<open>
  C5, as the specification states it, fails: the length is compared with the constant
  8, never with \<open>total_rounds\<close>.  With \<open>total_rounds = 5\<close>, two vectors of length 8
  are accepted, and the parameters and the engine are constructed from them.
\<close>

theorem RoundDistribution_length_ignores_total_rounds:
  "total_rounds (odds five_round_params) = 5
   \<and> length [1, 1, 1, 1, 1, 1, 1, 1 :: real] \<noteq> 5
   \<and> RoundDistribution_init [1, 1, 1, 1, 1, 1, 1, 1] [1, 1, 1, 1, 1, 1, 1, 1]
       = Inr (round_dist five_round_params)
   \<and> SimulationEngine_init example_rng five_round_params = Inr five_round_engine"
  by (simp add: five_round_engine_init example_round_dist_init)
     (simp add: five_round_params_def example_params_def)

text \<open>
  C5 (amended): constructing a RoundDistribution with a vector whose length differs
  from 8 fails with a ValueError whose message names the offending vector and the
  expected length 8 (Joshua's vector is checked first); the configured
  \<open>total_rounds\<close> is not consulted and the message does not give the actual length.
\<close>

theorem RoundDistribution_wrong_length:
  "(length jr \<noteq> 8 \<longrightarrow>
      RoundDistribution_init jr pr = Inl (ValueError ''joshua_ko_rounds must have 8 values''))
   \<and> (length jr = 8 \<and> length pr \<noteq> 8 \<longrightarrow>
      RoundDistribution_init jr pr = Inl (ValueError ''paul_ko_rounds must have 8 values''))"
  by (simp add: RoundDistribution_init_def RoundDistribution_post_init_def)

text \<open>The amended C5 at the vectors of the repository's own test, and with the parties swapped.\<close>

theorem RoundDistribution_wrong_length_witness:
  "length [1/5, 1/5, 1/5, 1/5 :: real] \<noteq> 8
   \<and> RoundDistribution_init [1/5, 1/5, 1/5, 1/5] [1, 1, 1, 1, 1, 1, 1, 1]
       = Inl (ValueError ''joshua_ko_rounds must have 8 values'')
   \<and> length [1, 1, 1, 1, 1, 1, 1, 1 :: real] = 8
   \<and> RoundDistribution_init [1, 1, 1, 1, 1, 1, 1, 1] [1/5, 1/5, 1/5, 1/5]
       = Inl (ValueError ''paul_ko_rounds must have 8 values'')"
  using RoundDistribution_wrong_length [of "[1/5, 1/5, 1/5, 1/5]" "[1, 1, 1, 1, 1, 1, 1, 1]"]
        RoundDistribution_wrong_length [of "[1, 1, 1, 1, 1, 1, 1, 1]" "[1/5, 1/5, 1/5, 1/5]"]
  by simp

section \<open>Running totals and the search\<close>

lemma length_cumsum_from: "length (cumsum_from acc xs) = length xs"
  by (induction xs arbitrary: acc) auto

lemma length_cumsum: "length (cumsum xs) = length xs"
  by (simp add: cumsum_def length_cumsum_from)

lemma cumsum_from_zeros: "cumsum_from acc (replicate n 0) = replicate n acc"
  by (induction n) auto

lemma searchsorted_le: "searchsorted a v \<le> length a"
  by (simp add: searchsorted_def length_takeWhile_le)

lemma searchsorted_all_less: "\<forall>x\<in>set a. x < v \<Longrightarrow> searchsorted a v = length a"
  by (simp add: searchsorted_def takeWhile_eq_all_conv [THEN iffD2])

section \<open>Sampling a round\<close>

lemma sample_round_range: "1 \<le> fst (sample_round e ws) \<and> fst (sample_round e ws) \<le> 8"
  by (simp add: sample_round_def random_one_def Let_def)

lemma sample_round_frame: "snd (sample_round e ws) = e\<lparr>rng := \<lambda>k. rng e (Suc k)\<rparr>"
  by (simp add: sample_round_def random_one_def Let_def)

text \<open>
  C10: on every list of 8 non-negative weights \<open>_sample_round\<close> returns a round
  between 1 and 8 (the function has no failing branch); on the all-zero vector every
  draw greater than 0 gives round 8, the search index 8 being capped.
\<close>

theorem sample_round_total:
  assumes "length ws = 8" and "\<forall>w\<in>set ws. 0 \<le> w"
  shows "1 \<le> fst (sample_round e ws) \<and> fst (sample_round e ws) \<le> 8
         \<and> (ws = replicate 8 0 \<and> 0 < rng e 0 \<longrightarrow> fst (sample_round e ws) = 8)"
proof -
  have "fst (sample_round e (replicate 8 0)) = 8" if "0 < rng e 0"
  proof -
    have "searchsorted (cumsum (replicate 8 0)) (rng e 0) = 8"
      using that by (simp add: cumsum_def cumsum_from_zeros searchsorted_all_less)
    then show ?thesis
      by (simp add: sample_round_def random_one_def Let_def)
  qed
  then show ?thesis
    using sample_round_range by blast
qed

text \<open>C10 at the all-zero vector, with the first draw 0.1 of the worked configuration.\<close>

theorem sample_round_total_witness:
  "length (replicate 8 (0::real)) = 8 \<and> list_all (\<lambda>w. 0 \<le> w) (replicate 8 (0::real))
   \<and> 0 < rng example_engine 0
   \<and> fst (sample_round example_engine (replicate 8 0)) = 8"
  using sample_round_total [of "replicate 8 0" example_engine]
  by (simp add: example_engine_def example_draws_def list_all_iff)

section \<open>An empty batch\<close>

text \<open>
  C7: \<open>simulate_batch(0, k)\<close> returns the empty list and leaves the engine, and so
  its generator, as it was: whatever is drawn afterwards is what an engine that never
  made the call draws.
\<close>

theorem simulate_batch_zero: "simulate_batch e 0 k = (Inr [], e)"
  by (simp add: simulate_batch_def random_many_def)

section \<open>One pass of the loop\<close>

lemma uniform_shift: "uniform g \<Longrightarrow> uniform (\<lambda>k. g (k + n))"
  by (simp add: uniform_def)

lemma uniform_Suc: "uniform g \<Longrightarrow> uniform (\<lambda>k. g (Suc k))"
  by (simp add: uniform_def)

lemma simulate_one_Inr:
  assumes "simulate_one e sid idx = Inr (r, e')"
  shows "sim_id r = sid" and "round_ok r"
    and "e' = e \<or> e' = e\<lparr>rng := \<lambda>k. rng e (Suc k)\<rparr>"
  using assms sample_round_range [of e "joshua_ko_rounds (round_dist (params e))"]
    sample_round_range [of e "paul_ko_rounds (round_dist (params e))"]
    sample_round_frame [of e "joshua_ko_rounds (round_dist (params e))"]
    sample_round_frame [of e "paul_ko_rounds (round_dist (params e))"]
  by (auto simp: simulate_one_def round_ok_def Let_def split: if_splits prod.splits)

lemma simulate_one_in_range:
  assumes "idx < length (outcomes e)"
  shows "\<exists>r e'. simulate_one e sid idx = Inr (r, e')"
  using assms by (auto simp: simulate_one_def Let_def split: prod.splits)

section \<open>The loop\<close>

lemma batch_loop_records:
  assumes "batch_loop e start i idxs acc = (Inr rs, e')" and "\<forall>r\<in>set acc. P r"
    and "\<And>e sid idx r e1. simulate_one e sid idx = Inr (r, e1) \<Longrightarrow> P r"
  shows "\<forall>r\<in>set rs. P r"
  using assms(1,2)
proof (induction idxs arbitrary: e i acc)
  case Nil
  then show ?case by simp
next
  case (Cons idx idxs)
  from Cons.prems(1) obtain r e1 where one: "simulate_one e (start + int i) idx = Inr (r, e1)"
    and rest: "batch_loop e1 start (Suc i) idxs (acc @ [r]) = (Inr rs, e')"
    by (auto split: sum.splits prod.splits)
  have "\<forall>x\<in>set (acc @ [r]). P x"
    using Cons.prems(2) assms(3) [OF one] by simp
  with Cons.IH [OF rest] show ?case .
qed

lemma simulate_one_frame:
  assumes "simulate_one e sid idx = Inr (r, e')"
  shows "\<exists>g. e' = e\<lparr>rng := g\<rparr> \<and> (uniform (rng e) \<longrightarrow> uniform g)"
proof -
  from simulate_one_Inr(3) [OF assms]
  consider "e' = e" | "e' = e\<lparr>rng := \<lambda>k. rng e (Suc k)\<rparr>" by blast
  then show ?thesis
  proof cases
    case 1
    then have "e' = e\<lparr>rng := rng e\<rparr>" by simp
    then show ?thesis by blast
  next
    case 2
    then show ?thesis using uniform_Suc by blast
  qed
qed

lemma batch_loop_frame:
  "\<exists>g. snd (batch_loop e start i idxs acc) = e\<lparr>rng := g\<rparr> \<and> (uniform (rng e) \<longrightarrow> uniform g)"
proof (induction idxs arbitrary: e i acc)
  case Nil
  have "e = e\<lparr>rng := rng e\<rparr>" by simp
  then show ?case by (metis batch_loop.simps(1) snd_conv)
next
  case (Cons idx idxs)
  show ?case
  proof (cases "simulate_one e (start + int i) idx")
    case (Inl err)
    have "e = e\<lparr>rng := rng e\<rparr>" by simp
    with Inl show ?thesis by (metis batch_loop.simps(2) sum.simps(5) snd_conv)
  next
    case (Inr pr)
    obtain r e1 where pr: "pr = (r, e1)" by (cases pr)
    from simulate_one_frame [OF Inr [unfolded pr]] obtain g1
      where e1: "e1 = e\<lparr>rng := g1\<rparr>" and u1: "uniform (rng e) \<longrightarrow> uniform g1" by blast
    from Cons.IH [of e1 "Suc i" "acc @ [r]"] obtain g
      where g: "snd (batch_loop e1 start (Suc i) idxs (acc @ [r])) = e1\<lparr>rng := g\<rparr>"
        and u: "uniform (rng e1) \<longrightarrow> uniform g" by blast
    have "snd (batch_loop e start i (idx # idxs) acc) = e\<lparr>rng := g\<rparr>"
      using Inr pr g e1 by simp
    moreover have "uniform (rng e) \<longrightarrow> uniform g"
      using u u1 e1 by simp
    ultimately show ?thesis by blast
  qed
qed

lemma simulate_batch_frame:
  "\<exists>g. snd (simulate_batch e count start_id) = e\<lparr>rng := g\<rparr> \<and> (uniform (rng e) \<longrightarrow> uniform g)"
proof (cases "count < 0")
  case True
  have "e = e\<lparr>rng := rng e\<rparr>" by simp
  with True show ?thesis by (metis simulate_batch_def snd_conv)
next
  case False
  let ?e1 = "e\<lparr>rng := \<lambda>k. rng e (k + nat count)\<rparr>"
  let ?idxs = "map (searchsorted (cumulative_probs e)) (map (rng e) [0..<nat count])"
  from batch_loop_frame [of ?e1 start_id 0 ?idxs "[]"] obtain g
    where g: "snd (batch_loop ?e1 start_id 0 ?idxs []) = ?e1\<lparr>rng := g\<rparr>"
      and u: "uniform (rng ?e1) \<longrightarrow> uniform g" by blast
  have "snd (simulate_batch e count start_id) = e\<lparr>rng := g\<rparr>"
    using False g by (simp add: simulate_batch_def random_many_def)
  moreover have "uniform (rng e) \<longrightarrow> uniform g"
    using u uniform_shift [of "rng e" "nat count"] by simp
  ultimately show ?thesis by blast
qed

lemma batch_loop_in_range:
  assumes "\<forall>idx\<in>set idxs. idx < length (outcomes e)"
  shows "\<exists>rs. fst (batch_loop e start i idxs acc) = Inr rs \<and> length rs = length acc + length idxs"
  using assms
proof (induction idxs arbitrary: e i acc)
  case Nil
  then show ?case by simp
next
  case (Cons idx idxs)
  then have "idx < length (outcomes e)" by simp
  from simulate_one_in_range [OF this, of "start + int i"] obtain r e1
    where one: "simulate_one e (start + int i) idx = Inr (r, e1)" by blast
  from simulate_one_frame [OF one] have "outcomes e1 = outcomes e" by auto
  with Cons.prems have "\<forall>j\<in>set idxs. j < length (outcomes e1)" by simp
  from Cons.IH [OF this, of "Suc i" "acc @ [r]"] one show ?case by auto
qed

section \<open>The draws a batch reads\<close>

lemma agree_mono: "agree m g h \<Longrightarrow> n \<le> m \<Longrightarrow> agree n g h"
  by (simp add: agree_def)

lemma sample_round_agree:
  assumes "rng e 0 = g 0"
  shows "sample_round (e\<lparr>rng := g\<rparr>) ws
           = (fst (sample_round e ws), (snd (sample_round e ws))\<lparr>rng := \<lambda>k. g (Suc k)\<rparr>)"
  using assms by (simp add: sample_round_def random_one_def Let_def)

lemma simulate_one_agree:
  assumes "agree (Suc m) (rng e) g"
  shows "case simulate_one e sid idx of
           Inl err \<Rightarrow> simulate_one (e\<lparr>rng := g\<rparr>) sid idx = Inl err
         | Inr (r, e1) \<Rightarrow>
             (\<exists>g1. simulate_one (e\<lparr>rng := g\<rparr>) sid idx = Inr (r, e1\<lparr>rng := g1\<rparr>)
                   \<and> agree m (rng e1) g1)"
proof -
  have g0: "rng e 0 = g 0" and tl: "agree m (\<lambda>k. rng e (Suc k)) (\<lambda>k. g (Suc k))"
    and same: "agree m (rng e) g"
    using assms by (auto simp: agree_def)
  have keep: "\<exists>g1. (e\<lparr>rng := g\<rparr>) = e\<lparr>rng := g1\<rparr> \<and> agree m (rng e) g1"
    using same by blast
  have shift: "\<exists>g1. (e\<lparr>rng := \<lambda>k. g (Suc k)\<rparr>) = e\<lparr>rng := \<lambda>k. rng e (Suc k), rng := g1\<rparr>
                 \<and> agree m (\<lambda>k. rng e (Suc k)) g1"
    using tl by auto
  show ?thesis
    using keep shift
    by (simp add: simulate_one_def Let_def sample_round_agree [of e g, OF g0] sample_round_frame
        split_beta)
qed

lemma batch_loop_agree:
  assumes "agree (length idxs) (rng e) g"
  shows "fst (batch_loop e s i idxs acc) = fst (batch_loop (e\<lparr>rng := g\<rparr>) s i idxs acc)"
  using assms
proof (induction idxs arbitrary: e g i acc)
  case Nil
  then show ?case by simp
next
  case (Cons idx idxs)
  then have a: "agree (Suc (length idxs)) (rng e) g" by simp
  show ?case
  proof (cases "simulate_one e (s + int i) idx")
    case (Inl err)
    with simulate_one_agree [OF a, of "s + int i" idx] show ?thesis by simp
  next
    case (Inr pr)
    obtain r e1 where pr: "pr = (r, e1)" by (cases pr)
    from simulate_one_agree [OF a, of "s + int i" idx] Inr pr obtain g1
      where one: "simulate_one (e\<lparr>rng := g\<rparr>) (s + int i) idx = Inr (r, e1\<lparr>rng := g1\<rparr>)"
        and a1: "agree (length idxs) (rng e1) g1" by auto
    from Cons.IH [OF a1, of "Suc i" "acc @ [r]"] Inr pr one show ?thesis by simp
  qed
qed

lemma batch_loop_ids:
  assumes "batch_loop e s i idxs acc = (Inr rs, e')"
  shows "length rs = length acc + length idxs \<and> take (length acc) rs = acc
         \<and> (\<forall>j<length idxs. sim_id (rs ! (length acc + j)) = s + int (i + j))"
  using assms
proof (induction idxs arbitrary: e i acc)
  case Nil
  then show ?case by simp
next
  case (Cons idx idxs)
  from Cons.prems obtain r e1 where one: "simulate_one e (s + int i) idx = Inr (r, e1)"
    and rest: "batch_loop e1 s (Suc i) idxs (acc @ [r]) = (Inr rs, e')"
    by (auto split: sum.splits prod.splits)
  from Cons.IH [OF rest]
  have len: "length rs = length acc + Suc (length idxs)"
    and tk: "take (Suc (length acc)) rs = acc @ [r]"
    and ids: "\<forall>j<length idxs. sim_id (rs ! (Suc (length acc) + j)) = s + int (Suc i + j)"
    by simp_all
  have r: "sim_id r = s + int i"
    using simulate_one_Inr(1) [OF one] .
  have "rs ! length acc = take (Suc (length acc)) rs ! length acc"
    by simp
  then have "rs ! length acc = r"
    by (simp add: tk)
  moreover have "take (length acc) (take (Suc (length acc)) rs) = take (length acc) rs"
    by (simp add: min_def)
  then have "take (length acc) rs = acc"
    by (simp add: tk)
  ultimately show ?case
    using len ids r by (auto simp: less_Suc_eq_0_disj)
qed

section \<open>The search on running totals\<close>

lemma searchsorted_last:
  assumes "a \<noteq> []" and "v \<le> last a"
  shows "searchsorted a v < length a"
proof (rule ccontr)
  assume "\<not> searchsorted a v < length a"
  with searchsorted_le [of a v] have "length (takeWhile (\<lambda>x. x < v) a) = length a"
    by (simp add: searchsorted_def)
  then have "takeWhile (\<lambda>x. x < v) a = a"
    by (metis takeWhile_eq_take take_all order_refl)
  then have "\<forall>x\<in>set a. x < v"
    by (simp add: takeWhile_eq_all_conv)
  moreover have "last a \<in> set a" using assms(1) by simp
  ultimately show False using assms(2) by fastforce
qed


lemma american_to_implied_prob_nonneg: "0 \<le> american_to_implied_prob x"
proof (cases "x > 0")
  case True
  then show ?thesis by (simp add: american_to_implied_prob_def)
next
  case False
  have "0 \<le> real_of_int \<bar>x\<bar> / real_of_int (\<bar>x\<bar> + 100)"
    by (rule divide_nonneg_nonneg) simp_all
  with False show ?thesis by (simp only: american_to_implied_prob_def if_False)
qed

lemma sorted_cumsum_from:
  assumes "\<forall>x\<in>set xs. 0 \<le> x"
  shows "sorted (cumsum_from acc xs) \<and> (\<forall>y\<in>set (cumsum_from acc xs). acc \<le> y)"
  using assms
proof (induction xs arbitrary: acc)
  case Nil
  then show ?case by simp
next
  case (Cons x xs)
  then have x: "0 \<le> x" and xs: "\<forall>y\<in>set xs. 0 \<le> y" by simp_all
  from Cons.IH [OF xs, of "acc + x"] x show ?case by fastforce
qed

lemma sorted_cumsum: "\<forall>x\<in>set xs. 0 \<le> x \<Longrightarrow> sorted (cumsum xs)"
  by (simp add: cumsum_def sorted_cumsum_from)

lemma searchsorted_spec:
  assumes "sorted a"
  shows "(\<forall>j<searchsorted a v. a ! j < v)
         \<and> (\<forall>j. searchsorted a v \<le> j \<and> j < length a \<longrightarrow> v \<le> a ! j)"
proof (intro conjI allI impI)
  fix j assume j: "j < searchsorted a v"
  then have "takeWhile (\<lambda>x. x < v) a ! j \<in> set (takeWhile (\<lambda>x. x < v) a)"
    by (simp add: searchsorted_def)
  then have "takeWhile (\<lambda>x. x < v) a ! j < v"
    by (meson set_takeWhileD)
  moreover have "takeWhile (\<lambda>x. x < v) a ! j = a ! j"
    using j by (simp add: searchsorted_def takeWhile_nth)
  ultimately show "a ! j < v" by simp
next
  fix j assume j: "searchsorted a v \<le> j \<and> j < length a"
  then have lt: "searchsorted a v < length a" by simp
  then have "\<not> a ! searchsorted a v < v"
    unfolding searchsorted_def by (rule nth_length_takeWhile)
  moreover have "a ! searchsorted a v \<le> a ! j"
    using assms j by (simp add: sorted_nth_mono)
  ultimately show "v \<le> a ! j" by simp
qed

section \<open>The precomputed tables\<close>

lemma compute_probabilities_seed: "compute_probabilities (p\<lparr>seed := s\<rparr>) = compute_probabilities p"
  by (simp add: compute_probabilities_def)

lemma last_cumsum4:
  fixes a b c d :: real
  assumes "a + (b + (c + d)) \<noteq> 0"
  shows "a / (a + (b + (c + d))) + b / (a + (b + (c + d)))
         + c / (a + (b + (c + d))) + d / (a + (b + (c + d))) = 1"
proof -
  define t where "t = a + (b + (c + d))"
  have "a / t + b / t + c / t + d / t = (a + (b + (c + d))) / t"
    by (simp add: add_divide_distrib)
  also have "\<dots> = 1" using assms by (simp add: t_def)
  finally show ?thesis by (simp add: t_def)
qed

lemma last_cumsum5:
  fixes a b c d e :: real
  assumes "a + (b + (c + (d + e))) \<noteq> 0"
  shows "a / (a + (b + (c + (d + e)))) + b / (a + (b + (c + (d + e))))
         + c / (a + (b + (c + (d + e)))) + d / (a + (b + (c + (d + e))))
         + e / (a + (b + (c + (d + e)))) = 1"
proof -
  define t where "t = a + (b + (c + (d + e)))"
  have "a / t + b / t + c / t + d / t + e / t = (a + (b + (c + (d + e)))) / t"
    by (simp add: add_divide_distrib)
  also have "\<dots> = 1" using assms by (simp add: t_def)
  finally show ?thesis by (simp add: t_def)
qed

lemma compute_probabilities_Inr:
  assumes "compute_probabilities p = Inr (np, outs, cum)"
  shows "outs = [''joshua_ko'', ''joshua_decision'', ''paul_ko'', ''paul_decision'']
                @ (if enable_draw p then [''draw''] else [])"
    and "length cum = length outs" and "last cum = 1"
proof -
  show "outs = [''joshua_ko'', ''joshua_decision'', ''paul_ko'', ''paul_decision'']
                @ (if enable_draw p then [''draw''] else [])"
    using assms
    by (auto simp: compute_probabilities_def normalize_probs_def Let_def split: if_splits sum.splits)
  show "length cum = length outs"
    using assms
    by (auto simp: compute_probabilities_def normalize_probs_def Let_def cumsum_def
        split: if_splits sum.splits)
  show "last cum = 1"
  proof (cases "enable_draw p")
    case True
    with assms show ?thesis
      by (auto simp: compute_probabilities_def normalize_probs_def Let_def cumsum_def last_cumsum5
        split: if_splits)
  next
    case False
    with assms show ?thesis
      by (auto simp: compute_probabilities_def normalize_probs_def Let_def cumsum_def last_cumsum4
        split: if_splits)
  qed
qed

lemma SimulationEngine_init_Inr:
  assumes "SimulationEngine_init default_rng p = Inr e"
  shows "params e = p" and "default_rng (seed p) = Inr (rng e)"
    and "compute_probabilities p = Inr (normalized_probs e, outcomes e, cumulative_probs e)"
  using assms by (auto simp: SimulationEngine_init_def split: sum.splits prod.splits)

text \<open>
  The lists the engine searches are sorted, so the search of the model is
  \<open>np.searchsorted\<close> there (\<open>searchsorted_spec\<close>).
\<close>

lemma compute_probabilities_sorted:
  assumes "compute_probabilities p = Inr (np, outs, cum)"
  shows "sorted cum"
proof -
  have nn: "0 \<le> american_to_implied_prob x / t" if "0 \<le> t" for x t
    using that american_to_implied_prob_nonneg [of x] by (rule divide_nonneg_nonneg [rotated])
  have t4: "0 \<le> american_to_implied_prob a + (american_to_implied_prob b
              + (american_to_implied_prob c + american_to_implied_prob d))" for a b c d
    by (intro add_nonneg_nonneg american_to_implied_prob_nonneg)
  have t5: "0 \<le> american_to_implied_prob a + (american_to_implied_prob b
              + (american_to_implied_prob c + (american_to_implied_prob d
              + american_to_implied_prob e)))" for a b c d e
    by (intro add_nonneg_nonneg american_to_implied_prob_nonneg)
  from assms show ?thesis
    by (auto simp: compute_probabilities_def normalize_probs_def Let_def nn t4 t5
        split: if_splits intro!: sorted_cumsum)
qed

lemma RoundDistribution_init_sorted:
  assumes "RoundDistribution_init jr pr = Inr rd"
  shows "sorted (cumsum (joshua_ko_rounds rd))" and "sorted (cumsum (paul_ko_rounds rd))"
proof -
  have nj: "\<forall>w\<in>set jr. 0 \<le> w" and np: "\<forall>w\<in>set pr. 0 \<le> w"
    using assms
    by (auto simp: RoundDistribution_init_def RoundDistribution_post_init_def list_ex_neg_iff
        split: if_splits)
  have "\<forall>w\<in>set (joshua_ko_rounds rd). 0 \<le> w"
    using assms nj
    by (auto simp: RoundDistribution_init_def RoundDistribution_post_init_def Let_def
        split: if_splits intro!: divide_nonneg_nonneg)
  then show "sorted (cumsum (joshua_ko_rounds rd))" by (rule sorted_cumsum)
  have "\<forall>w\<in>set (paul_ko_rounds rd). 0 \<le> w"
    using assms np
    by (auto simp: RoundDistribution_init_def RoundDistribution_post_init_def Let_def
        split: if_splits intro!: divide_nonneg_nonneg)
  then show "sorted (cumsum (paul_ko_rounds rd))" by (rule sorted_cumsum)
qed

section \<open>Invariants of the reachable states\<close>

lemma reseed_Inr:
  assumes "reseed default_rng e s = Inr e'"
  shows "default_rng s = Inr (rng e')" and "e' = e\<lparr>rng := rng e', params := (params e)\<lparr>seed := s\<rparr>\<rparr>"
  using assms by (auto simp: reseed_def split: sum.splits)

lemma reachable_shape:
  assumes "reachable default_rng p e"
  shows "\<exists>e0 g s. SimulationEngine_init default_rng p = Inr e0
           \<and> e = e0\<lparr>rng := g, params := p\<lparr>seed := s\<rparr>\<rparr>"
  using assms
proof (induction rule: reachable.induct)
  case (constructed e)
  from SimulationEngine_init_Inr(1) [OF constructed]
  have "e = e\<lparr>rng := rng e, params := p\<lparr>seed := seed p\<rparr>\<rparr>" by simp
  with constructed show ?case by blast
next
  case (after_batch e count start_id)
  then obtain e0 g s where e0: "SimulationEngine_init default_rng p = Inr e0"
    and e: "e = e0\<lparr>rng := g, params := p\<lparr>seed := s\<rparr>\<rparr>" by blast
  from simulate_batch_frame [of e count start_id] obtain g'
    where "snd (simulate_batch e count start_id) = e\<lparr>rng := g'\<rparr>" by blast
  with e have "snd (simulate_batch e count start_id) = e0\<lparr>rng := g', params := p\<lparr>seed := s\<rparr>\<rparr>"
    by simp
  with e0 show ?case by blast
next
  case (after_reseed e s' e')
  then obtain e0 g s where e0: "SimulationEngine_init default_rng p = Inr e0"
    and e: "e = e0\<lparr>rng := g, params := p\<lparr>seed := s\<rparr>\<rparr>" by blast
  from reseed_Inr(2) [OF after_reseed(2)] e
  have "e' = e0\<lparr>rng := rng e', params := p\<lparr>seed := s'\<rparr>\<rparr>" by simp
  with e0 show ?case by blast
qed

lemma reachable_uniform:
  assumes "reachable default_rng p e" and "seeds_uniform default_rng"
  shows "uniform (rng e)"
  using assms
proof (induction rule: reachable.induct)
  case (constructed e)
  from SimulationEngine_init_Inr(2) [OF constructed(1)] constructed(2)
  show ?case by (auto simp: seeds_uniform_def)
next
  case (after_batch e count start_id)
  from simulate_batch_frame [of e count start_id] obtain g'
    where "snd (simulate_batch e count start_id) = e\<lparr>rng := g'\<rparr>"
      and "uniform (rng e) \<longrightarrow> uniform g'" by blast
  with after_batch show ?case by simp
next
  case (after_reseed e s' e')
  from reseed_Inr(1) [OF after_reseed(2)] after_reseed(4)
  show ?case by (auto simp: seeds_uniform_def)
qed

lemma reachable_tables:
  assumes "reachable default_rng p e"
  shows "outcomes e \<noteq> []" and "length (cumulative_probs e) = length (outcomes e)"
proof -
  from reachable_shape [OF assms] obtain e0 g s
    where e0: "SimulationEngine_init default_rng p = Inr e0"
      and e: "e = e0\<lparr>rng := g, params := p\<lparr>seed := s\<rparr>\<rparr>" by blast
  from compute_probabilities_Inr(1,2) [OF SimulationEngine_init_Inr(3) [OF e0]]
  have "outcomes e0 \<noteq> []" and "length (cumulative_probs e0) = length (outcomes e0)" by auto
  with e show "outcomes e \<noteq> []" and "length (cumulative_probs e) = length (outcomes e)"
    by simp_all
qed

lemma reachable_table_facts:
  assumes "reachable default_rng p e"
  shows "last (cumulative_probs e) = 1" and "sorted (cumulative_probs e)"
proof -
  from reachable_shape [OF assms] obtain e0 g s
    where e0: "SimulationEngine_init default_rng p = Inr e0"
      and e: "e = e0\<lparr>rng := g, params := p\<lparr>seed := s\<rparr>\<rparr>" by blast
  note c = SimulationEngine_init_Inr(3) [OF e0]
  from compute_probabilities_Inr(3) [OF c] e show "last (cumulative_probs e) = 1" by simp
  from compute_probabilities_sorted [OF c] e show "sorted (cumulative_probs e)" by simp
qed

section \<open>Rounds of the records\<close>

text \<open>
  C2, as the specification states it, fails: the rounds are the constants of the code,
  8 and 9, whatever \<open>total_rounds\<close> says.  With \<open>total_rounds = 5\<close> the engine is
  constructed, and a batch of three holds knockouts in round 8, beyond round 5, and a
  decision in round 9, which is not \<open>5 + 1\<close>.
\<close>

theorem simulate_batch_rounds_ignore_total_rounds:
  "SimulationEngine_init example_rng five_round_params = Inr five_round_engine
   \<and> total_rounds (odds (params five_round_engine)) = 5
   \<and> fst (simulate_batch five_round_engine 3 0) = Inr
       [\<lparr>sim_id = 0, winner = ''Joshua'', method_label = ''KO/TKO/DQ'', round_num = 8\<rparr>,
        \<lparr>sim_id = 1, winner = ''Joshua'', method_label = ''KO/TKO/DQ'', round_num = 8\<rparr>,
        \<lparr>sim_id = 2, winner = ''Paul'', method_label = ''Decision'', round_num = 9\<rparr>]
   \<and> \<not> 8 \<le> total_rounds (odds (params five_round_engine))
   \<and> 9 \<noteq> total_rounds (odds (params five_round_engine)) + 1"
proof -
  have "total_rounds (odds (params five_round_engine)) = 5"
    by (simp add: five_round_engine_def five_round_params_def)
  moreover have "fst (simulate_batch five_round_engine 3 0) = Inr
       [\<lparr>sim_id = 0, winner = ''Joshua'', method_label = ''KO/TKO/DQ'', round_num = 8\<rparr>,
        \<lparr>sim_id = 1, winner = ''Joshua'', method_label = ''KO/TKO/DQ'', round_num = 8\<rparr>,
        \<lparr>sim_id = 2, winner = ''Paul'', method_label = ''Decision'', round_num = 9\<rparr>]"
    by code_simp
  ultimately show ?thesis
    using five_round_engine_init by simp
qed

text \<open>
  C2 (amended): for every engine state and every record that \<open>simulate_batch\<close>
  returns, a finish (KO/TKO/DQ) has its round in 1 to 8, and a decision or a draw has
  round 9, whatever \<open>total_rounds\<close> is; these are the ranges of the claim when
  \<open>total_rounds\<close> is 8.
\<close>

theorem simulate_batch_rounds:
  assumes "fst (simulate_batch e count start_id) = Inr rs" and "r \<in> set rs"
  shows "(method_label r = ''KO/TKO/DQ'' \<longrightarrow> 1 \<le> round_num r \<and> round_num r \<le> 8)
         \<and> (method_label r = ''Decision'' \<or> winner r = ''Draw'' \<longrightarrow> round_num r = 9)
         \<and> (total_rounds (odds (params e)) = 8 \<longrightarrow>
              (method_label r = ''KO/TKO/DQ'' \<longrightarrow>
                 1 \<le> round_num r \<and> round_num r \<le> total_rounds (odds (params e)))
              \<and> (method_label r = ''Decision'' \<or> winner r = ''Draw'' \<longrightarrow>
                 round_num r = total_rounds (odds (params e)) + 1))"
proof -
  have nonneg: "\<not> count < 0"
    using assms(1) by (auto simp: simulate_batch_def)
  let ?e1 = "e\<lparr>rng := \<lambda>k. rng e (k + nat count)\<rparr>"
  let ?idxs = "map (searchsorted (cumulative_probs e)) (map (rng e) [0..<nat count])"
  have "fst (batch_loop ?e1 start_id 0 ?idxs []) = Inr rs"
    using assms(1) nonneg by (simp add: simulate_batch_def random_many_def)
  then have "batch_loop ?e1 start_id 0 ?idxs [] = (Inr rs, snd (batch_loop ?e1 start_id 0 ?idxs []))"
    by (simp add: prod_eq_iff)
  from batch_loop_records [OF this, of round_ok] simulate_one_Inr(2)
  have "\<forall>x\<in>set rs. round_ok x" by simp
  with assms(2) show ?thesis by (simp add: round_ok_def)
qed

text \<open>The amended C2 at the batch of three of the worked configuration, for its first record.\<close>

theorem simulate_batch_rounds_witness:
  "fst (simulate_batch example_engine 3 0) = Inr
     [\<lparr>sim_id = 0, winner = ''Joshua'', method_label = ''KO/TKO/DQ'', round_num = 8\<rparr>,
      \<lparr>sim_id = 1, winner = ''Joshua'', method_label = ''KO/TKO/DQ'', round_num = 8\<rparr>,
      \<lparr>sim_id = 2, winner = ''Paul'', method_label = ''Decision'', round_num = 9\<rparr>]
   \<and> method_label \<lparr>sim_id = 0, winner = ''Joshua'', method_label = ''KO/TKO/DQ'', round_num = 8\<rparr>
       = ''KO/TKO/DQ''
   \<and> total_rounds (odds (params example_engine)) = 8
   \<and> round_num \<lparr>sim_id = 0, winner = ''Joshua'', method_label = ''KO/TKO/DQ'', round_num = 8\<rparr>
       \<le> total_rounds (odds (params example_engine))"
  using simulate_batch_rounds [OF example_batch3,
      of "\<lparr>sim_id = 0, winner = ''Joshua'', method_label = ''KO/TKO/DQ'', round_num = 8\<rparr>"]
    example_batch3
  by (simp add: example_engine_def example_params_def OddsConfig_default_def)

section \<open>When a batch returns\<close>

text \<open>
  In every state of an engine whose construction succeeded, with a generator that
  delivers values in the half-open unit interval: if the last entry of the cumulative
  table is 1, every drawn value is mapped to an index inside the outcome list, and for
  every count that is not negative \<open>simulate_batch\<close> returns the records, as many as
  asked for.  In exact arithmetic the last entry is 1 (\<open>reachable_table_facts\<close>).
\<close>

lemma simulate_batch_returns:
  assumes "reachable default_rng p e" and "seeds_uniform default_rng"
      and "last (cumulative_probs e) = 1" and "0 \<le> count" and "0 \<le> start_id"
  shows "(\<forall>k. searchsorted (cumulative_probs e) (rng e k) < length (outcomes e))
         \<and> (\<exists>rs. fst (simulate_batch e count start_id) = Inr rs \<and> length rs = nat count)"
proof -
  from reachable_tables [OF assms(1)]
  have ne: "cumulative_probs e \<noteq> []"
    and len: "length (cumulative_probs e) = length (outcomes e)" by auto
  have u: "uniform (rng e)"
    using reachable_uniform [OF assms(1,2)] .
  have idx: "searchsorted (cumulative_probs e) (rng e k) < length (outcomes e)" for k
  proof -
    have "rng e k \<le> last (cumulative_probs e)"
      using u assms(3) by (simp add: uniform_def less_imp_le)
    from searchsorted_last [OF ne this] len show ?thesis by simp
  qed
  let ?e1 = "e\<lparr>rng := \<lambda>k. rng e (k + nat count)\<rparr>"
  let ?idxs = "map (searchsorted (cumulative_probs e)) (map (rng e) [0..<nat count])"
  have "\<forall>i\<in>set ?idxs. i < length (outcomes ?e1)"
    using idx by auto
  from batch_loop_in_range [OF this, of start_id 0 "[]"] obtain rs
    where "fst (batch_loop ?e1 start_id 0 ?idxs []) = Inr rs" and "length rs = nat count"
    by auto
  then have "fst (simulate_batch e count start_id) = Inr rs \<and> length rs = nat count"
    using assms(4) by (simp add: simulate_batch_def random_many_def)
  with idx show ?thesis by blast
qed

section \<open>When a batch raises\<close>

text \<open>
  The lookup \<open>self.outcomes[outcome_idx]\<close> is not capped: a first draw above every
  entry of the cumulative table makes any batch of at least one raise.
\<close>

lemma simulate_batch_raises:
  assumes "0 < count"
      and "length (outcomes e) \<le> searchsorted (cumulative_probs e) (rng e 0)"
  shows "fst (simulate_batch e count start_id) = Inl IndexError"
proof -
  have "[0..<nat count] = 0 # [1..<nat count]"
    using assms(1) by (simp add: upt_conv_Cons)
  then show ?thesis
    using assms by (simp add: simulate_batch_def random_many_def simulate_one_def)
qed

text \<open>
  The tables of the engine for the price 370 are those of the exact computation up to
  the rounding of doubles: every entry is within \<open>2^(-52)\<close> of the exact one.
\<close>

lemma drift_table_rounding:
  "(case compute_probabilities drift_params of
      Inl err \<Rightarrow> False
    | Inr (np, outs, cum) \<Rightarrow>
        outs = outcomes drift_engine
        \<and> list_all2 (\<lambda>d x. \<bar>d - x\<bar> \<le> 1 / 2 ^ 52) (cumulative_probs drift_engine) cum
        \<and> list_all2 (\<lambda>d x. \<bar>d - x\<bar> \<le> 1 / 2 ^ 52)
              (map snd (normalized_probs drift_engine)) (map snd np))"
  by (simp add: compute_probabilities_def drift_params_def example_params_def
      OddsConfig_default_def american_to_implied_prob_def normalize_probs_def cumsum_def
      drift_engine_def)

text \<open>
  C6: once construction has succeeded, \<open>simulate_batch\<close> is to return for every
  count and start id that are not negative, every drawn value selecting an entry of the
  outcome list.  The code does not do so.  For the price 370 the doubles of the
  cumulative table end at \<open>1 - 2^(-52)\<close>, not at 1; the draw \<open>1 - 2^(-53)\<close> lies in
  the unit interval and above every entry, the search returns 4, one past the last of
  the four outcomes, and \<open>simulate_batch(1, 0)\<close> raises IndexError.  The sibling
  \<open>_sample_round\<close> caps the result of the same search: on round weights whose
  running total ends at \<open>1 - 2^(-52)\<close> the search returns 8 and the round is 8.
\<close>

theorem simulate_batch_index_error:
  "0 \<le> rng drift_engine 0 \<and> rng drift_engine 0 < 1
   \<and> last (cumulative_probs drift_engine) < rng drift_engine 0
   \<and> searchsorted (cumulative_probs drift_engine) (rng drift_engine 0) = 4
   \<and> length (outcomes drift_engine) = 4
   \<and> fst (simulate_batch drift_engine 1 0) = Inl IndexError
   \<and> searchsorted (cumsum [1/8, 1/8, 1/8, 1/8, 1/8, 1/8, 1/8, 1/8 - 1 / 2 ^ 52])
         (rng drift_engine 0) = 8
   \<and> fst (sample_round drift_engine [1/8, 1/8, 1/8, 1/8, 1/8, 1/8, 1/8, 1/8 - 1 / 2 ^ 52]) = 8"
proof -
  have s: "searchsorted (cumulative_probs drift_engine) (rng drift_engine 0) = 4"
    by (simp add: searchsorted_def drift_engine_def top_draws_def)
  have l: "length (outcomes drift_engine) = 4"
    by (simp add: drift_engine_def)
  have r: "fst (simulate_batch drift_engine 1 0) = Inl IndexError"
    by (rule simulate_batch_raises) (simp_all add: s l)
  have c: "searchsorted (cumsum [1/8, 1/8, 1/8, 1/8, 1/8, 1/8, 1/8, 1/8 - 1 / 2 ^ 52])
         (rng drift_engine 0) = 8"
    by (simp add: searchsorted_def cumsum_def drift_engine_def top_draws_def)
  have sr: "fst (sample_round drift_engine [1/8, 1/8, 1/8, 1/8, 1/8, 1/8, 1/8, 1/8 - 1 / 2 ^ 52]) = 8"
    using c by (simp add: sample_round_def random_one_def Let_def)
  have u: "0 \<le> rng drift_engine 0 \<and> rng drift_engine 0 < 1
           \<and> last (cumulative_probs drift_engine) < rng drift_engine 0"
    by (simp add: drift_engine_def top_draws_def)
  from u s l r c sr show ?thesis by simp
qed

section \<open>Determinism\<close>

text \<open>
  C1: two engines constructed from the same configuration (the seed included) return
  the same result from \<open>simulate_batch(N, 0)\<close> for every \<open>N \<ge> 0\<close>: the same
  records, field for field, in the same order.  The result is determined by the
  configuration and the first \<open>2N\<close> values of the generator that seeding returned
  (with one seeding function the two generators are the same); when records are
  returned they are \<open>N\<close>, with the ids \<open>0\<close> to \<open>N - 1\<close> in order; and records are
  returned whenever the first \<open>N\<close> values select entries of the outcome list.
\<close>

theorem simulate_batch_deterministic:
  assumes "SimulationEngine_init rng1 p = Inr e1" and "SimulationEngine_init rng2 p = Inr e2"
      and "agree (2 * nat n) (rng e1) (rng e2)" and "0 \<le> n"
  shows "fst (simulate_batch e1 n 0) = fst (simulate_batch e2 n 0)
         \<and> (\<forall>rs. fst (simulate_batch e1 n 0) = Inr rs \<longrightarrow>
               length rs = nat n \<and> (\<forall>i<nat n. sim_id (rs ! i) = int i))
         \<and> ((\<forall>k<nat n. searchsorted (cumulative_probs e1) (rng e1 k) < length (outcomes e1)) \<longrightarrow>
               (\<exists>rs. fst (simulate_batch e1 n 0) = Inr rs))"
proof -
  note i1 = SimulationEngine_init_Inr [OF assms(1)] and i2 = SimulationEngine_init_Inr [OF assms(2)]
  have e2: "e2 = e1\<lparr>rng := rng e2\<rparr>"
    using i1(1,3) i2(1,3) by (intro SimulationEngine.equality) simp_all
  let ?h1 = "\<lambda>k. rng e1 (k + nat n)" and ?h2 = "\<lambda>k. rng e2 (k + nat n)"
  let ?idxs = "map (searchsorted (cumulative_probs e1)) (map (rng e1) [0..<nat n])"
  have sb1: "simulate_batch e1 n 0 = batch_loop (e1\<lparr>rng := ?h1\<rparr>) 0 0 ?idxs []"
    using assms(4) by (simp add: simulate_batch_def random_many_def)
  have same: "map (rng e2) [0..<nat n] = map (rng e1) [0..<nat n]"
    using assms(3) by (simp add: agree_def)
  have "simulate_batch e2 n 0
          = batch_loop (e1\<lparr>rng := rng e2\<rparr>\<lparr>rng := ?h2\<rparr>) 0 0
              (map (searchsorted (cumulative_probs e1)) (map (rng e2) [0..<nat n])) []"
    using assms(4) by (subst e2) (simp add: simulate_batch_def random_many_def)
  then have sb2: "simulate_batch e2 n 0 = batch_loop (e1\<lparr>rng := ?h1\<rparr>\<lparr>rng := ?h2\<rparr>) 0 0 ?idxs []"
    by (simp add: same)
  have "agree (length ?idxs) (rng (e1\<lparr>rng := ?h1\<rparr>)) ?h2"
    using assms(3) by (simp add: agree_def)
  from batch_loop_agree [OF this, of 0 0 "[]"]
  have eq: "fst (simulate_batch e1 n 0) = fst (simulate_batch e2 n 0)"
    by (simp only: sb1 sb2)
  have ids: "length rs = nat n \<and> (\<forall>i<nat n. sim_id (rs ! i) = int i)"
    if "fst (simulate_batch e1 n 0) = Inr rs" for rs
  proof -
    from that have "batch_loop (e1\<lparr>rng := ?h1\<rparr>) 0 0 ?idxs []
                      = (Inr rs, snd (batch_loop (e1\<lparr>rng := ?h1\<rparr>) 0 0 ?idxs []))"
      by (simp add: sb1 prod_eq_iff)
    from batch_loop_ids [OF this] show ?thesis by simp
  qed
  have ret: "\<exists>rs. fst (simulate_batch e1 n 0) = Inr rs"
    if "\<forall>k<nat n. searchsorted (cumulative_probs e1) (rng e1 k) < length (outcomes e1)"
  proof -
    from that have "\<forall>i\<in>set ?idxs. i < length (outcomes (e1\<lparr>rng := ?h1\<rparr>))" by auto
    from batch_loop_in_range [OF this, of 0 0 "[]"] show ?thesis
      by (auto simp: sb1)
  qed
  from eq ids ret show ?thesis by blast
qed

text \<open>
  C1 at the worked configuration and a batch of three, for two seeding functions whose
  generators for seed 42 deliver the same first six values and differ at the seventh.
\<close>

theorem simulate_batch_deterministic_witness:
  "SimulationEngine_init example_rng example_params = Inr example_engine
   \<and> SimulationEngine_init alt_rng example_params = Inr alt_engine
   \<and> agree (2 * nat 3) (rng example_engine) (rng alt_engine)
   \<and> rng example_engine 6 \<noteq> rng alt_engine 6
   \<and> (0::int) \<le> 3
   \<and> fst (simulate_batch alt_engine 3 0) = Inr
     [\<lparr>sim_id = 0, winner = ''Joshua'', method_label = ''KO/TKO/DQ'', round_num = 8\<rparr>,
      \<lparr>sim_id = 1, winner = ''Joshua'', method_label = ''KO/TKO/DQ'', round_num = 8\<rparr>,
      \<lparr>sim_id = 2, winner = ''Paul'', method_label = ''Decision'', round_num = 9\<rparr>]"
proof -
  have a: "agree (2 * nat 3) (rng example_engine) (rng alt_engine)"
    by (simp add: agree_def alt_engine_def example_engine_def alt_draws_def)
  have d: "rng example_engine 6 \<noteq> rng alt_engine 6"
    by (simp add: alt_engine_def example_engine_def alt_draws_def example_draws_def)
  from simulate_batch_deterministic [OF example_engine_init alt_engine_init a] example_batch3
  have "fst (simulate_batch alt_engine 3 0) = Inr
     [\<lparr>sim_id = 0, winner = ''Joshua'', method_label = ''KO/TKO/DQ'', round_num = 8\<rparr>,
      \<lparr>sim_id = 1, winner = ''Joshua'', method_label = ''KO/TKO/DQ'', round_num = 8\<rparr>,
      \<lparr>sim_id = 2, winner = ''Paul'', method_label = ''Decision'', round_num = 9\<rparr>]"
    by simp
  with example_engine_init alt_engine_init a d show ?thesis by simp
qed

section \<open>Reseeding\<close>

text \<open>
  C8: in every state of an engine constructed from a configuration \<open>p\<close>, a successful
  \<open>reseed(s)\<close> replaces the generator and the seed of the stored configuration and
  nothing else (the normalized probabilities, the outcome order and the cumulative
  table are as before), and the engine is then the engine freshly constructed from
  \<open>p\<close> with seed \<open>s\<close>; so every sequence of \<open>simulate_batch\<close> calls returns on it what
  it returns on the fresh engine, call for call.
\<close>

theorem reseed_as_fresh:
  assumes "reachable default_rng p e" and "reseed default_rng e s = Inr e'"
  shows "e' = e\<lparr>rng := rng e', params := (params e)\<lparr>seed := s\<rparr>\<rparr>
         \<and> normalized_probs e' = normalized_probs e \<and> outcomes e' = outcomes e
         \<and> cumulative_probs e' = cumulative_probs e
         \<and> SimulationEngine_init default_rng (p\<lparr>seed := s\<rparr>) = Inr e'
         \<and> (\<forall>fresh calls. SimulationEngine_init default_rng (p\<lparr>seed := s\<rparr>) = Inr fresh
               \<longrightarrow> simulate_calls e' calls = simulate_calls fresh calls)"
proof -
  from reachable_shape [OF assms(1)] obtain e0 g s0
    where e0: "SimulationEngine_init default_rng p = Inr e0"
      and e: "e = e0\<lparr>rng := g, params := p\<lparr>seed := s0\<rparr>\<rparr>" by blast
  note r = reseed_Inr [OF assms(2)]
  have e': "e' = e0\<lparr>rng := rng e', params := p\<lparr>seed := s\<rparr>\<rparr>"
    using r(2) e by simp
  have "compute_probabilities (p\<lparr>seed := s\<rparr>)
          = Inr (normalized_probs e0, outcomes e0, cumulative_probs e0)"
    using SimulationEngine_init_Inr(3) [OF e0] by (simp add: compute_probabilities_seed)
  then have fresh: "SimulationEngine_init default_rng (p\<lparr>seed := s\<rparr>) = Inr e'"
    using r(1) by (subst e') (simp add: SimulationEngine_init_def)
  have "normalized_probs e' = normalized_probs e \<and> outcomes e' = outcomes e
        \<and> cumulative_probs e' = cumulative_probs e"
    by (subst (1 2 3) r(2)) simp
  with r(2) fresh show ?thesis by simp
qed

text \<open>
  C8 at the worked configuration: after a batch of two, reseeding with 42 gives the
  engine as it was constructed.
\<close>

theorem reseed_as_fresh_witness:
  "reachable example_rng example_params (snd (simulate_batch example_engine 2 0))
   \<and> reseed example_rng (snd (simulate_batch example_engine 2 0)) 42 = Inr example_engine
   \<and> SimulationEngine_init example_rng (example_params\<lparr>seed := 42\<rparr>) = Inr example_engine
   \<and> cumulative_probs example_engine
       = cumulative_probs (snd (simulate_batch example_engine 2 0))"
proof -
  let ?e = "snd (simulate_batch example_engine 2 0)"
  have r: "reachable example_rng example_params ?e"
    by (rule after_batch [OF constructed [OF example_engine_init]])
  obtain g where g: "?e = example_engine\<lparr>rng := g\<rparr>"
    using simulate_batch_frame by blast
  have rs: "reseed example_rng ?e 42 = Inr example_engine"
    by (simp add: g reseed_def example_rng_def) (simp add: example_engine_def example_params_def)
  from reseed_as_fresh [OF r rs] r rs show ?thesis by simp
qed

section \<open>Splitting a run into batches\<close>

text \<open>
  C9: splitting is not neutral.  In the worked configuration the generator delivers
  0.1, 0.05, 0.95, 0.95, ...  Two calls of size 1 use 0.1 for the first outcome and
  0.05 for its round, then 0.95 for the second outcome; one call of size 2 uses 0.1
  and 0.05 for the two outcomes and only then 0.95 and 0.95 for the two rounds.  The
  records differ.
\<close>

theorem batch_split_not_neutral:
  "SimulationEngine_init example_rng example_params = Inr example_engine
   \<and> simulate_calls example_engine [(1, 0), (1, 1)] = Inr
       [[\<lparr>sim_id = 0, winner = ''Joshua'', method_label = ''KO/TKO/DQ'', round_num = 1\<rparr>],
        [\<lparr>sim_id = 1, winner = ''Paul'', method_label = ''Decision'', round_num = 9\<rparr>]]
   \<and> simulate_calls example_engine [(2, 0)] = Inr
       [[\<lparr>sim_id = 0, winner = ''Joshua'', method_label = ''KO/TKO/DQ'', round_num = 8\<rparr>,
         \<lparr>sim_id = 1, winner = ''Joshua'', method_label = ''KO/TKO/DQ'', round_num = 8\<rparr>]]
   \<and> map_sum id concat (simulate_calls example_engine [(1, 0), (1, 1)])
       \<noteq> map_sum id concat (simulate_calls example_engine [(2, 0)])"
proof -
  have split: "simulate_calls example_engine [(1, 0), (1, 1)] = Inr
       [[\<lparr>sim_id = 0, winner = ''Joshua'', method_label = ''KO/TKO/DQ'', round_num = 1\<rparr>],
        [\<lparr>sim_id = 1, winner = ''Paul'', method_label = ''Decision'', round_num = 9\<rparr>]]"
    by code_simp
  have whole: "simulate_calls example_engine [(2, 0)] = Inr
       [[\<lparr>sim_id = 0, winner = ''Joshua'', method_label = ''KO/TKO/DQ'', round_num = 8\<rparr>,
         \<lparr>sim_id = 1, winner = ''Joshua'', method_label = ''KO/TKO/DQ'', round_num = 8\<rparr>]]"
    by code_simp
  show ?thesis
    unfolding split whole using example_engine_init by simp
qed

end
